theory Spec2Isabelle
  imports Main
begin

section \<open>Data model\<close>

text \<open>
  The programs work on a pandas DataFrame read from \<^verbatim>\<open>data/metadata.csv\<close>.  A frame is
  modelled as the list of its rows, in index order; a cell that pandas shows as NaN/NaT is
  \<open>None\<close>.  The columns the code touches are \<open>title\<close>, \<open>abstract\<close>, \<open>journal\<close> and
  \<open>publish_time\<close>; the last one holds text as read and timestamps once
  \<^verbatim>\<open>pd.to_datetime\<close> has been assigned back to it, hence the type parameter.  The columns
  \<open>year\<close> and \<open>abstract_word_count\<close> are added by the code, one record extension each.
  Of a timestamp only the calendar date is kept; the code reads nothing but its year.
\<close>

datatype timestamp = Timestamp (ts_year: int) (ts_month: nat) (ts_day: nat)

record 't row =
  title :: "string option"
  abstract :: "string option"
  journal :: "string option"
  publish_time :: "'t option"

record 't dated_row = "'t row" +
  year :: "int option"

record 't paper = "'t dated_row" +
  abstract_word_count :: nat

type_synonym csv_frame = "string row list"
type_synonym frame = "timestamp paper list"

datatype exn = FileNotFoundError | OtherException | ValueError | SystemExit int

section \<open>Library operations used by the code\<close>

subsection \<open>\<^verbatim>\<open>pd.to_datetime(col, errors=...)\<close>\<close>

text \<open>
  The date grammar pandas applies to a column is library code; it is the parameter \<open>P\<close>
  (\<open>None\<close>: the text is not a date).  What the code chooses is the \<^verbatim>\<open>errors\<close> policy:
  with \<^verbatim>\<open>'raise'\<close> an unparseable cell raises, with \<^verbatim>\<open>'coerce'\<close> it becomes NaT.  A
  missing cell stays missing under both.
\<close>

datatype errors = Raise | Coerce

type_synonym parser = "string \<Rightarrow> timestamp option"

fun to_datetime_cell :: "errors \<Rightarrow> parser \<Rightarrow> string option \<Rightarrow> exn + timestamp option" where
  "to_datetime_cell e P None = Inr None"
| "to_datetime_cell e P (Some s) =
     (case P s of
        Some d \<Rightarrow> Inr (Some d)
      | None \<Rightarrow> (case e of Raise \<Rightarrow> Inl ValueError | Coerce \<Rightarrow> Inr None))"

fun to_datetime :: "errors \<Rightarrow> parser \<Rightarrow> string option list \<Rightarrow> exn + timestamp option list" where
  "to_datetime e P [] = Inr []"
| "to_datetime e P (c # cs) =
     (case to_datetime_cell e P c of
        Inl x \<Rightarrow> Inl x
      | Inr d \<Rightarrow> (case to_datetime e P cs of Inl x \<Rightarrow> Inl x | Inr ds \<Rightarrow> Inr (d # ds)))"

text \<open>\<^verbatim>\<open>col.dt.year\<close>: the calendar year of each timestamp, NaN where the cell is NaT.\<close>

definition dt_year :: "timestamp option list \<Rightarrow> int option list" where
  "dt_year col = map (map_option ts_year) col"

subsection \<open>\<^verbatim>\<open>str.split()\<close> and \<^verbatim>\<open>fillna\<close>\<close>

text \<open>
  Python's \<^verbatim>\<open>str.isspace\<close> on the code points below 256: tab, line feed, vertical tab,
  form feed, carriage return, the separators 28 to 31, space, NEL (133) and the
  no-break space (160).
\<close>

definition isspace :: "char \<Rightarrow> bool" where
  "isspace c = ((of_char c :: nat) \<in> {9, 10, 11, 12, 13, 28, 29, 30, 31, 32, 133, 160})"

text \<open>
  \<^verbatim>\<open>s.split()\<close> with no separator: runs of whitespace separate the words, and no empty
  word is produced.  \<open>w\<close> is the word being read, last character first.
\<close>

fun split_from :: "string \<Rightarrow> string \<Rightarrow> string list" where
  "split_from w [] = (if w = [] then [] else [rev w])"
| "split_from w (c # cs) =
     (if isspace c then (if w = [] then split_from [] cs else rev w # split_from [] cs)
      else split_from (c # w) cs)"

definition split :: "string \<Rightarrow> string list" where
  "split s = split_from [] s"

definition fillna :: "'a \<Rightarrow> 'a option \<Rightarrow> 'a" where
  "fillna v c = (case c of None \<Rightarrow> v | Some x \<Rightarrow> x)"

subsection \<open>Column assignment and \<^verbatim>\<open>dropna\<close>\<close>

text \<open>\<^verbatim>\<open>df[name] = col\<close> pairs the rows with the cells of the new column, by position.\<close>

definition set_publish_time :: "'s row list \<Rightarrow> 't option list \<Rightarrow> 't row list" where
  "set_publish_time df col =
     map (\<lambda>(r, v). \<lparr>title = title r, abstract = abstract r, journal = journal r,
                    publish_time = v\<rparr>) (zip df col)"

definition set_year :: "'t row list \<Rightarrow> int option list \<Rightarrow> 't dated_row list" where
  "set_year df col =
     map (\<lambda>(r, v). \<lparr>title = title r, abstract = abstract r, journal = journal r,
                    publish_time = publish_time r, year = v\<rparr>) (zip df col)"

definition set_abstract_word_count :: "'t dated_row list \<Rightarrow> nat list \<Rightarrow> 't paper list" where
  "set_abstract_word_count df col =
     map (\<lambda>(r, v). \<lparr>title = title r, abstract = abstract r, journal = journal r,
                    publish_time = publish_time r, year = year r,
                    abstract_word_count = v\<rparr>) (zip df col)"

text \<open>\<^verbatim>\<open>df.dropna(subset=['title', 'year'])\<close> keeps the rows where both cells are present.\<close>

definition dropna_title_year :: "'t dated_row list \<Rightarrow> 't dated_row list" where
  "dropna_title_year df = filter (\<lambda>r. title r \<noteq> None \<and> year r \<noteq> None) df"

subsection \<open>\<^verbatim>\<open>Series.value_counts\<close>, \<^verbatim>\<open>sort_index\<close>, \<^verbatim>\<open>head\<close>\<close>

text \<open>
  \<^verbatim>\<open>unique\<close>: the distinct values of a column in the order of their first appearance.
\<close>

definition unique :: "'a list \<Rightarrow> 'a list" where
  "unique xs = rev (remdups (rev xs))"

text \<open>
  \<^verbatim>\<open>col.value_counts(dropna=...)\<close>: one entry (value, number of occurrences) per distinct
  value, the most frequent first; with \<^verbatim>\<open>dropna=True\<close>, the default that every call in
  the code takes, missing cells are left out before counting.  Entries with the same count
  keep the order of first appearance (the sort is stable).
\<close>

definition value_counts :: "bool \<Rightarrow> 'a option list \<Rightarrow> ('a option \<times> nat) list" where
  "value_counts dropna col =
     (let vals = (if dropna then filter (\<lambda>v. v \<noteq> None) col else col)
      in sort_key (\<lambda>(k, n). - int n) (map (\<lambda>k. (k, count_list vals k)) (unique vals)))"

text \<open>
  \<^verbatim>\<open>sort_index()\<close> on a series indexed by year: ascending by the index value, entries
  with a NaN index last.
\<close>

definition sort_index :: "(int option \<times> nat) list \<Rightarrow> (int option \<times> nat) list" where
  "sort_index s =
     map (\<lambda>(y, n). (Some y, n)) (sort_key fst [(y, n). (Some y, n) \<leftarrow> s])
     @ [(None, n). (None, n) \<leftarrow> s]"

definition head :: "nat \<Rightarrow> 'a list \<Rightarrow> 'a list" where
  "head n xs = take n xs"

text \<open>\<^verbatim>\<open>col.dropna()\<close>, \<^verbatim>\<open>min()\<close> and \<^verbatim>\<open>max()\<close> (NaN on an empty series), \<^verbatim>\<open>int(...)\<close>.\<close>

definition dropna :: "'a option list \<Rightarrow> 'a list" where
  "dropna col = [v. Some v \<leftarrow> col]"

definition series_min :: "int list \<Rightarrow> int option" where
  "series_min ys = (case ys of [] \<Rightarrow> None | y # ys' \<Rightarrow> Some (fold min ys' y))"

definition series_max :: "int list \<Rightarrow> int option" where
  "series_max ys = (case ys of [] \<Rightarrow> None | y # ys' \<Rightarrow> Some (fold max ys' y))"

definition py_int :: "int option \<Rightarrow> exn + int" where
  "py_int c = (case c of None \<Rightarrow> Inl ValueError | Some v \<Rightarrow> Inr v)"

section \<open>analysis.py\<close>

text \<open>
  \<^verbatim>\<open>load_data\<close>: the outcome of \<^verbatim>\<open>pd.read_csv(filepath, low_memory=False)\<close> is the
  parameter \<open>read_csv\<close>; both \<^verbatim>\<open>except\<close> branches print and call \<^verbatim>\<open>sys.exit(1)\<close>.
\<close>

definition load_data :: "exn + csv_frame \<Rightarrow> exn + csv_frame" where
  "load_data read_csv =
     (case read_csv of
        Inr df \<Rightarrow> Inr df
      | Inl FileNotFoundError \<Rightarrow> Inl (SystemExit 1)
      | Inl e \<Rightarrow> Inl (SystemExit 1))"

text \<open>
  \<^verbatim>\<open>clean_data\<close> returns the cleaned frame; the second component is the number it prints
  in \<^verbatim>\<open>Dropped {before - after} rows missing title or year.\<close>  (\<open>n_before\<close> and
  \<open>n_after\<close> are the source's \<^verbatim>\<open>before\<close> and \<^verbatim>\<open>after\<close>.)
\<close>

definition clean_data :: "parser \<Rightarrow> csv_frame \<Rightarrow> exn + (frame \<times> int)" where
  "clean_data P df =
     (case to_datetime Coerce P (map publish_time df) of
        Inl e \<Rightarrow> Inl e
      | Inr col \<Rightarrow>
          (let df1 = set_publish_time df col;
               df2 = set_year df1 (dt_year (map publish_time df1));
               n_before = int (length df2);
               df3 = dropna_title_year df2;
               n_after = int (length df3);
               df4 = set_abstract_word_count df3
                       (map (\<lambda>x. length (split x)) (map (fillna '''') (map abstract df3)))
           in Inr (df4, n_before - n_after)))"

text \<open>
  The data path of \<^verbatim>\<open>main\<close>: \<^verbatim>\<open>df = load_data(filepath)\<close>, then
  \<^verbatim>\<open>df_clean = clean_data(df)\<close>.
\<close>

definition df_clean :: "exn + csv_frame \<Rightarrow> parser \<Rightarrow> exn + (frame \<times> int)" where
  "df_clean read_csv P =
     (case load_data read_csv of Inl e \<Rightarrow> Inl e | Inr df \<Rightarrow> clean_data P df)"

text \<open>
  The two frequency views of \<^verbatim>\<open>basic_analysis\<close> (the plot functions and app.py compute
  the same expressions): \<^verbatim>\<open>df['year'].value_counts().sort_index()\<close> and
  \<^verbatim>\<open>df['journal'].value_counts().head(10)\<close>.
\<close>

definition counts_year :: "('t, 'z) paper_scheme list \<Rightarrow> (int option \<times> nat) list" where
  "counts_year df = sort_index (value_counts True (map year df))"

definition top_journals :: "('t, 'z) paper_scheme list \<Rightarrow> (string option \<times> nat) list" where
  "top_journals df = head 10 (value_counts True (map journal df))"

section \<open>app.py\<close>

text \<open>
  \<^verbatim>\<open>load_data\<close> of app.py (the \<^verbatim>\<open>st.cache_data\<close> memoisation does not change the value
  returned).  No handler: an exception of \<^verbatim>\<open>read_csv\<close> propagates.
\<close>

definition app_load_data :: "exn + csv_frame \<Rightarrow> parser \<Rightarrow> exn + frame" where
  "app_load_data read_csv P =
     (case read_csv of
        Inl e \<Rightarrow> Inl e
      | Inr df \<Rightarrow>
          (case to_datetime Coerce P (map publish_time df) of
             Inl e \<Rightarrow> Inl e
           | Inr col \<Rightarrow>
               (let df1 = set_publish_time df col;
                    df2 = set_year df1 (dt_year (map publish_time df1));
                    df3 = set_abstract_word_count df2
                            (map (\<lambda>x. length (split x)) (map (fillna '''') (map abstract df2)))
                in Inr df3)))"

text \<open>
  \<^verbatim>\<open>main\<close>, the slider bounds:
  \<^verbatim>\<open>min_year = int(df['year'].dropna().min())\<close> and the same with \<^verbatim>\<open>max\<close>; the pair is
  also the slider's initial value.  \<^verbatim>\<open>int\<close> of NaN raises.
\<close>

definition year_bounds :: "('t, 'z) paper_scheme list \<Rightarrow> exn + (int \<times> int)" where
  "year_bounds df =
     (case py_int (series_min (dropna (map year df))) of
        Inl e \<Rightarrow> Inl e
      | Inr min_year \<Rightarrow>
          (case py_int (series_max (dropna (map year df))) of
             Inl e \<Rightarrow> Inl e
           | Inr max_year \<Rightarrow> Inr (min_year, max_year)))"

text \<open>
  The filter of \<^verbatim>\<open>main\<close>:
  \<^verbatim>\<open>mask = (df['year'] >= year_range[0]) & (df['year'] <= year_range[1])\<close>, then
  \<^verbatim>\<open>df.loc[mask]\<close>.  A comparison with NaN is false.
\<close>

definition ge_cell :: "int option \<Rightarrow> int \<Rightarrow> bool" where
  "ge_cell c v = (case c of None \<Rightarrow> False | Some y \<Rightarrow> v \<le> y)"

definition le_cell :: "int option \<Rightarrow> int \<Rightarrow> bool" where
  "le_cell c v = (case c of None \<Rightarrow> False | Some y \<Rightarrow> y \<le> v)"

definition loc :: "'a list \<Rightarrow> bool list \<Rightarrow> 'a list" where
  "loc df m = map fst (filter snd (zip df m))"

definition df_filtered :: "int \<times> int \<Rightarrow> ('t, 'z) paper_scheme list \<Rightarrow> ('t, 'z) paper_scheme list" where
  "df_filtered year_range df =
     (let year_mask = map (\<lambda>(a, b). a \<and> b)
                        (zip (map (\<lambda>c. ge_cell c (fst year_range)) (map year df))
                             (map (\<lambda>c. le_cell c (snd year_range)) (map year df)))
      in loc df year_mask)"

text \<open>The preview table: \<^verbatim>\<open>df_filtered[['title', 'journal', 'year']].head(10)\<close>.\<close>

definition preview ::
  "('t, 'z) paper_scheme list \<Rightarrow> (string option \<times> string option \<times> int option) list" where
  "preview df = head 10 (map (\<lambda>r. (title r, journal r, year r)) df)"

section \<open>A date grammar for the examples\<close>

text \<open>
  The results below hold for every date grammar \<open>P\<close>.  To run the examples, \<open>parse_ymd\<close>
  is the grammar \<^verbatim>\<open>%Y-%m-%d\<close>: four, two and two decimal digits separated by \<open>-\<close>, naming a
  day of the Gregorian calendar.
\<close>

definition digit :: "char \<Rightarrow> nat option" where
  "digit c = (let n = (of_char c :: nat) in if 48 \<le> n \<and> n \<le> 57 then Some (n - 48) else None)"

fun number_from :: "nat \<Rightarrow> string \<Rightarrow> nat option" where
  "number_from acc [] = Some acc"
| "number_from acc (c # cs) =
     (case digit c of None \<Rightarrow> None | Some d \<Rightarrow> number_from (10 * acc + d) cs)"

definition is_leap :: "nat \<Rightarrow> bool" where
  "is_leap y = (y mod 4 = 0 \<and> (y mod 100 \<noteq> 0 \<or> y mod 400 = 0))"

definition days_in_month :: "nat \<Rightarrow> nat \<Rightarrow> nat" where
  "days_in_month y m =
     (if m = 2 then (if is_leap y then 29 else 28)
      else if m = 4 \<or> m = 6 \<or> m = 9 \<or> m = 11 then 30 else 31)"

definition parse_ymd :: parser where
  "parse_ymd s =
     (if length s = 10 \<and> s ! 4 = CHR ''-'' \<and> s ! 7 = CHR ''-'' then
        (case (number_from 0 (take 4 s), number_from 0 (take 2 (drop 5 s)),
               number_from 0 (drop 8 s)) of
           (Some y, Some m, Some d) \<Rightarrow>
             if 1 \<le> y \<and> 1 \<le> m \<and> m \<le> 12 \<and> 1 \<le> d \<and> d \<le> days_in_month y m
             then Some (Timestamp (int y) m d) else None
         | _ \<Rightarrow> None)
      else None)"

section \<open>Specification-side definitions\<close>

text \<open>
  The spec's ``whitespace-token count'' of a text: the number of positions where a token
  begins, that is a non-whitespace character that is the first of the text or follows a
  whitespace character.
\<close>

definition whitespace_token_count :: "string \<Rightarrow> nat" where
  "whitespace_token_count s =
     length (filter (\<lambda>i. \<not> isspace (s ! i) \<and> (i = 0 \<or> isspace (s ! (i - 1)))) [0..<length s])"

text \<open>
  The same count by one pass over the text; \<open>b\<close> says whether a token may begin at the
  first character.
\<close>

fun token_starts :: "bool \<Rightarrow> string \<Rightarrow> nat" where
  "token_starts b [] = 0"
| "token_starts b (c # cs) =
     (if isspace c then token_starts True cs
      else (if b then 1 else 0) + token_starts False cs)"

section \<open>Row-wise form of the column operations\<close>

text \<open>
  What the column operations of \<^verbatim>\<open>clean_data\<close> and \<^verbatim>\<open>load_data\<close> do to one row: parse
  and derive the year (\<open>dated\<close>), then count the words of the abstract (\<open>counted\<close>).
  The lemmas \<open>clean_data_rows\<close> and \<open>app_load_data_rows\<close> below show that the two
  functions, as defined above on columns, compute exactly this.
\<close>

definition dated :: "parser \<Rightarrow> string row \<Rightarrow> timestamp dated_row" where
  "dated P r =
     \<lparr>title = title r, abstract = abstract r, journal = journal r,
      publish_time = Option.bind (publish_time r) P,
      year = map_option ts_year (Option.bind (publish_time r) P)\<rparr>"

definition counted :: "'t dated_row \<Rightarrow> 't paper" where
  "counted r =
     \<lparr>title = title r, abstract = abstract r, journal = journal r,
      publish_time = publish_time r, year = year r,
      abstract_word_count = length (split (fillna '''' (abstract r)))\<rparr>"

section \<open>The column operations, row by row\<close>

lemma to_datetime_cell_Coerce:
  "to_datetime_cell Coerce P c = Inr (Option.bind c P)"
  by (cases c) (auto split: option.splits)

lemma to_datetime_Coerce:
  "to_datetime Coerce P col = Inr (map (\<lambda>c. Option.bind c P) col)"
  by (induction col) (simp_all add: to_datetime_cell_Coerce)

lemma counted_sel [simp]:
  "title (counted r) = title r"
  "abstract (counted r) = abstract r"
  "journal (counted r) = journal r"
  "publish_time (counted r) = publish_time r"
  "year (counted r) = year r"
  "abstract_word_count (counted r) = length (split (fillna [] (abstract r)))"
  by (simp_all add: counted_def)

lemma dated_sel [simp]:
  "title (dated P r) = title r"
  "abstract (dated P r) = abstract r"
  "journal (dated P r) = journal r"
  "publish_time (dated P r) = Option.bind (publish_time r) P"
  "year (dated P r) = map_option ts_year (Option.bind (publish_time r) P)"
  by (simp_all add: dated_def)

lemma set_year_dated:
  "set_year (set_publish_time df (map (\<lambda>c. Option.bind c P) (map publish_time df)))
     (dt_year (map publish_time
        (set_publish_time df (map (\<lambda>c. Option.bind c P) (map publish_time df)))))
   = map (dated P) df"
  by (induction df) (simp_all add: set_year_def set_publish_time_def dt_year_def dated_def)

lemma set_abstract_word_count_counted:
  "set_abstract_word_count df (map (\<lambda>x. length (split x)) (map (fillna []) (map abstract df)))
   = map counted df"
  by (induction df) (simp_all add: set_abstract_word_count_def counted_def)

lemma clean_data_rows:
  "clean_data P df =
     Inr (map counted (filter (\<lambda>r. title r \<noteq> None \<and> year r \<noteq> None) (map (dated P) df)),
          int (length df)
          - int (length (filter (\<lambda>r. title r \<noteq> None \<and> year r \<noteq> None) (map (dated P) df))))"
  by (simp add: clean_data_def to_datetime_Coerce Let_def set_year_dated
      set_abstract_word_count_counted dropna_title_year_def del: map_map)

lemma app_load_data_rows:
  "app_load_data (Inr df) P = Inr (map counted (map (dated P) df))"
  by (simp add: app_load_data_def to_datetime_Coerce Let_def set_year_dated
      set_abstract_word_count_counted del: map_map)

lemma df_clean_Inr:
  "df_clean (Inr df) P = clean_data P df"
  by (simp add: df_clean_def load_data_def)

lemma loc_filter:
  "loc df (map p df) = filter p df"
  unfolding loc_def by (induction df) auto

lemma df_filtered_filter:
  "df_filtered (lo, hi) df = filter (\<lambda>r. ge_cell (year r) lo \<and> le_cell (year r) hi) df"
proof -
  have "map (\<lambda>(a, b). a \<and> b)
          (zip (map (\<lambda>c. ge_cell c lo) (map year df)) (map (\<lambda>c. le_cell c hi) (map year df)))
        = map (\<lambda>r. ge_cell (year r) lo \<and> le_cell (year r) hi) df"
    by (induction df) auto
  then show ?thesis
    by (simp add: df_filtered_def loc_filter)
qed

lemma bind_case: "Option.bind c P = (case c of None \<Rightarrow> None | Some s \<Rightarrow> P s)"
  by (cases c) simp_all

lemma filter_present_counted:
  "filter (\<lambda>r. title r \<noteq> None \<and> year r \<noteq> None) (map counted xs)
   = map counted (filter (\<lambda>r. title r \<noteq> None \<and> year r \<noteq> None) xs)"
  by (induction xs) simp_all

section \<open>Word counts\<close>

lemma length_split_from:
  "length (split_from w s) = (if w = [] then token_starts True s else 1 + token_starts False s)"
  by (induction s arbitrary: w) simp_all

lemma token_starts_index:
  "token_starts b s =
     length (filter (\<lambda>i. \<not> isspace (s ! i) \<and> (if i = 0 then b else isspace (s ! (i - 1))))
               [0..<length s])"
proof (induction s arbitrary: b)
  case Nil
  show ?case by simp
next
  case (Cons c cs)
  define Q where
    "Q = (\<lambda>i. \<not> isspace ((c # cs) ! i) \<and> (if i = 0 then b else isspace ((c # cs) ! (i - 1))))"
  have q0: "Q 0 \<longleftrightarrow> \<not> isspace c \<and> b"
    by (simp add: Q_def)
  have qS: "Q (Suc i) \<longleftrightarrow>
              \<not> isspace (cs ! i) \<and> (if i = 0 then isspace c else isspace (cs ! (i - 1)))" for i
    by (simp add: Q_def nth_Cons')
  have u: "[0..<length (c # cs)] = 0 # map Suc [0..<length cs]"
    by (simp add: upt_conv_Cons map_Suc_upt del: upt_Suc)
  have "length (filter Q [0..<length (c # cs)])
        = (if Q 0 then 1 else 0) + length (filter (Q \<circ> Suc) [0..<length cs])"
    unfolding u by simp
  also have "filter (Q \<circ> Suc) [0..<length cs]
        = filter (\<lambda>i. \<not> isspace (cs ! i)
                       \<and> (if i = 0 then isspace c else isspace (cs ! (i - 1)))) [0..<length cs]"
    by (simp add: comp_def qS)
  also have "length \<dots> = token_starts (isspace c) cs"
    by (simp only: Cons.IH)
  finally have "length (filter Q [0..<length (c # cs)])
        = (if Q 0 then 1 else 0) + token_starts (isspace c) cs" .
  then show ?case
    unfolding Q_def [symmetric] by (simp add: q0)
qed

lemma length_split:
  "length (split s) = whitespace_token_count s"
proof -
  have "(\<lambda>i. \<not> isspace (s ! i) \<and> (if i = 0 then True else isspace (s ! (i - 1))))
        = (\<lambda>i. \<not> isspace (s ! i) \<and> (i = 0 \<or> isspace (s ! (i - 1))))"
    by auto
  then show ?thesis
    by (simp add: split_def length_split_from token_starts_index whitespace_token_count_def)
qed

section \<open>Frequency tables\<close>

lemma set_unique [simp]: "set (unique xs) = set xs"
  by (simp add: unique_def)

lemma distinct_unique [simp]: "distinct (unique xs)"
  by (simp add: unique_def)

lemma count_list_filter_Some:
  "count_list (filter (\<lambda>v. v \<noteq> None) col) (Some v) = count_list col (Some v)"
  by (induction col) auto

lemma count_list_map:
  "count_list (map f xs) k = length (filter (\<lambda>x. f x = k) xs)"
  by (induction xs) auto

lemma value_counts_True_unfold:
  "value_counts True col =
     sort_key (\<lambda>(k, n). - int n)
       (map (\<lambda>k. (k, count_list (filter (\<lambda>v. v \<noteq> None) col) k))
            (unique (filter (\<lambda>v. v \<noteq> None) col)))"
  by (simp only: value_counts_def Let_def if_True)

lemma set_value_counts_True:
  "set (value_counts True col) = {(Some v, count_list col (Some v)) | v. Some v \<in> set col}"
proof -
  let ?vals = "filter (\<lambda>v. v \<noteq> None) col"
  have "set (value_counts True col) = (\<lambda>k. (k, count_list ?vals k)) ` set ?vals"
    by (simp only: value_counts_True_unfold set_sort set_map set_unique)
  also have "\<dots> = {(Some v, count_list col (Some v)) | v. Some v \<in> set col}"
  proof (intro set_eqI iffI)
    fix e assume "e \<in> (\<lambda>k. (k, count_list ?vals k)) ` set ?vals"
    then obtain k where k: "k \<in> set col" "k \<noteq> None" "e = (k, count_list ?vals k)"
      by auto
    then obtain v where "k = Some v"
      by auto
    with k show "e \<in> {(Some v, count_list col (Some v)) | v. Some v \<in> set col}"
      by (simp only: count_list_filter_Some) blast
  next
    fix e assume "e \<in> {(Some v, count_list col (Some v)) | v. Some v \<in> set col}"
    then obtain v where v: "Some v \<in> set col" "e = (Some v, count_list col (Some v))"
      by blast
    then have "Some v \<in> set ?vals" "e = (Some v, count_list ?vals (Some v))"
      by (simp_all only: count_list_filter_Some) simp
    then show "e \<in> (\<lambda>k. (k, count_list ?vals k)) ` set ?vals"
      by (rule_tac image_eqI)
  qed
  finally show ?thesis .
qed

lemma keys_value_counts_True:
  "fst ` set (value_counts True col) = Some ` {v. Some v \<in> set col}"
  unfolding set_value_counts_True by force

lemma distinct_keys_value_counts:
  "distinct (map fst (value_counts b col))"
proof -
  have d: "distinct (map fst (map (\<lambda>k. (k, count_list vs k)) (unique vs)))" for vs :: "'a option list"
    by (simp add: comp_def)
  have "distinct (map fst (sort_key f xs)) = distinct (map fst xs)"
    for f :: "'a option \<times> nat \<Rightarrow> int" and xs
    by (simp add: distinct_map)
  with d show ?thesis
    by (simp add: value_counts_def Let_def del: map_map)
qed

lemma descending_value_counts:
  "sorted_wrt (\<lambda>a b. snd b \<le> snd a) (value_counts b col)"
proof -
  have "sorted (map (\<lambda>(k, n). - int n) (sort_key (\<lambda>(k, n). - int n) xs))"
    for xs :: "('a option \<times> nat) list"
    by (rule sorted_sort_key)
  then have "sorted_wrt (\<lambda>a b. snd b \<le> snd a) (sort_key (\<lambda>(k, n). - int n) xs)"
    for xs :: "('a option \<times> nat) list"
    by (simp add: sorted_map case_prod_unfold)
  then show ?thesis
    by (simp add: value_counts_def Let_def)
qed

lemma length_value_counts_True:
  "length (value_counts True col) = card {v. Some v \<in> set col}"
proof -
  have "length (value_counts True col) = card (set (filter (\<lambda>v. v \<noteq> None) col))"
    by (simp only: value_counts_True_unfold length_sort length_map unique_def length_rev
        length_remdups_card_conv set_rev)
  also have "set (filter (\<lambda>v. v \<noteq> None) col) = Some ` {v. Some v \<in> set col}"
    by (auto simp: image_iff)
  also have "card \<dots> = card {v. Some v \<in> set col}"
    by (simp add: card_image)
  finally show ?thesis .
qed

lemma value_counts_True_filter:
  "value_counts True (filter (\<lambda>v. v \<noteq> None) col) = value_counts True col"
  by (simp only: value_counts_True_unfold filter_filter conj_absorb)

lemma journals_present:
  "{v. Some v \<in> set (map journal df)} = {j. \<exists>r\<in>set df. journal r = Some j}"
  by (force simp: image_iff)

lemma years_present:
  "{v. Some v \<in> set (map year df)} = {y. \<exists>r\<in>set df. year r = Some y}"
  by (force simp: image_iff)

lemma set_Some_entries:
  "set [(y, n). (Some y, n) \<leftarrow> xs] = {(y, n). (Some y, n) \<in> set xs}"
  by (induction xs) (auto split: option.splits)

lemma distinct_keys_Some_entries:
  "distinct (map fst xs) \<Longrightarrow> distinct (map fst [(y, n). (Some y, n) \<leftarrow> xs])"
  by (induction xs) (force simp: set_Some_entries split: option.splits)+

lemma None_entries_empty:
  "None \<notin> fst ` set xs \<Longrightarrow> [(None, n). (None :: 'a option, n) \<leftarrow> xs] = []"
  by (induction xs) (auto split: option.splits)

section \<open>Slider bounds\<close>

lemma fold_min_le:
  "fold min ys (y::int) \<le> y \<and> (\<forall>x\<in>set ys. fold min ys y \<le> x)"
proof (induction ys arbitrary: y)
  case Nil
  show ?case by simp
next
  case (Cons a ys)
  from Cons.IH [of "min a y"] show ?case
    by simp
qed

lemma fold_max_ge:
  "y \<le> fold max ys (y::int) \<and> (\<forall>x\<in>set ys. x \<le> fold max ys y)"
proof (induction ys arbitrary: y)
  case Nil
  show ?case by simp
next
  case (Cons a ys)
  from Cons.IH [of "max a y"] show ?case
    by simp
qed

lemma set_dropna: "set (dropna col) = {v. Some v \<in> set col}"
  by (induction col) (auto simp: dropna_def split: option.splits)

lemma year_bounds_cover:
  assumes "year_bounds df = Inr (lo, hi)" and "r \<in> set df" and "year r = Some y"
  shows "lo \<le> y \<and> y \<le> hi"
proof -
  from assms(2,3) have y: "y \<in> set (dropna (map year df))"
    by (force simp: set_dropna image_iff)
  then obtain z zs where zs: "dropna (map year df) = z # zs"
    by (cases "dropna (map year df)") auto
  with assms(1) have lo: "lo = fold min zs z" and hi: "hi = fold max zs z"
    by (simp_all add: year_bounds_def series_min_def series_max_def py_int_def)
  from y zs have "y = z \<or> y \<in> set zs"
    by simp
  with fold_min_le [of zs z] fold_max_ge [of z zs] lo hi show ?thesis
    by auto
qed

section \<open>The interactive load and the batch pipeline\<close>

text \<open>
  C1, as stated, fails.  On a frame with one record that has a date but no title, the
  load of app.py returns that record and the batch pipeline (\<open>load_data\<close>, then
  \<open>clean_data\<close>) returns the empty frame and reports one dropped row: app.py has no
  \<^verbatim>\<open>dropna\<close> on the frame.
\<close>

theorem app_load_data_neq_df_clean:
  "app_load_data
     (Inr [\<lparr>title = None, abstract = None, journal = None,
            publish_time = Some ''2020-03-01''\<rparr>]) parse_ymd
   = Inr [\<lparr>title = None, abstract = None, journal = None,
           publish_time = Some (Timestamp 2020 3 1), year = Some 2020,
           abstract_word_count = 0\<rparr>]
   \<and> df_clean
     (Inr [\<lparr>title = None, abstract = None, journal = None,
            publish_time = Some ''2020-03-01''\<rparr>]) parse_ymd
   = Inr ([], 1)"
  by code_simp

text \<open>
  C1, amended.  For every input frame and every date grammar, both preparations return;
  the batch frame is the frame of the interactive load restricted to the records whose
  title and year are both present; the interactive load keeps every input record; so the
  two frames are equal exactly when no record of the interactive frame lacks a title or a
  year.
\<close>

theorem df_clean_is_filtered_app_load_data:
  "\<exists>app_df clean_df n.
     app_load_data (Inr df) P = Inr app_df \<and>
     df_clean (Inr df) P = Inr (clean_df, n) \<and>
     clean_df = filter (\<lambda>r. title r \<noteq> None \<and> year r \<noteq> None) app_df \<and>
     length app_df = length df \<and>
     (clean_df = app_df \<longleftrightarrow> (\<forall>r\<in>set app_df. title r \<noteq> None \<and> year r \<noteq> None))"
proof -
  let ?app = "map counted (map (dated P) df)"
  let ?keep = "\<lambda>r. title r \<noteq> None \<and> year r \<noteq> None"
  have a: "app_load_data (Inr df) P = Inr ?app"
    by (rule app_load_data_rows)
  have c: "df_clean (Inr df) P =
             Inr (filter ?keep ?app, int (length df) - int (length (filter ?keep (map (dated P) df))))"
    by (simp only: df_clean_Inr clean_data_rows filter_present_counted)
  have l: "length ?app = length df"
    by simp
  have e: "filter ?keep ?app = ?app \<longleftrightarrow> (\<forall>r\<in>set ?app. ?keep r)"
    by (rule filter_id_conv)
  from a c l e show ?thesis
    by blast
qed

theorem df_clean_is_filtered_app_load_data_witness:
  "app_load_data
     (Inr [\<lparr>title = Some ''T'', abstract = Some ''a b c'', journal = Some ''J'',
            publish_time = Some ''2020-03-01''\<rparr>,
           \<lparr>title = None, abstract = None, journal = None,
            publish_time = Some ''2021-01-15''\<rparr>]) parse_ymd
   = Inr [\<lparr>title = Some ''T'', abstract = Some ''a b c'', journal = Some ''J'',
           publish_time = Some (Timestamp 2020 3 1), year = Some 2020,
           abstract_word_count = 3\<rparr>,
          \<lparr>title = None, abstract = None, journal = None,
           publish_time = Some (Timestamp 2021 1 15), year = Some 2021,
           abstract_word_count = 0\<rparr>]
   \<and> df_clean
     (Inr [\<lparr>title = Some ''T'', abstract = Some ''a b c'', journal = Some ''J'',
            publish_time = Some ''2020-03-01''\<rparr>,
           \<lparr>title = None, abstract = None, journal = None,
            publish_time = Some ''2021-01-15''\<rparr>]) parse_ymd
   = Inr (filter (\<lambda>r. title r \<noteq> None \<and> year r \<noteq> None)
           [\<lparr>title = Some ''T'', abstract = Some ''a b c'', journal = Some ''J'',
             publish_time = Some (Timestamp 2020 3 1), year = Some 2020,
             abstract_word_count = 3\<rparr>,
            \<lparr>title = None, abstract = None, journal = None,
             publish_time = Some (Timestamp 2021 1 15), year = Some 2021,
             abstract_word_count = 0\<rparr>], 1)"
proof -
  let ?T = "[\<lparr>title = Some ''T'', abstract = Some ''a b c'', journal = Some ''J'',
            publish_time = Some ''2020-03-01''\<rparr>,
           \<lparr>title = None, abstract = None, journal = None,
            publish_time = Some ''2021-01-15''\<rparr>]"
  have a: "app_load_data (Inr ?T) parse_ymd
   = Inr [\<lparr>title = Some ''T'', abstract = Some ''a b c'', journal = Some ''J'',
           publish_time = Some (Timestamp 2020 3 1), year = Some 2020,
           abstract_word_count = 3\<rparr>,
          \<lparr>title = None, abstract = None, journal = None,
           publish_time = Some (Timestamp 2021 1 15), year = Some 2021,
           abstract_word_count = 0\<rparr>]"
    by code_simp
  have n: "snd (projr (df_clean (Inr ?T) parse_ymd)) = 1"
    by code_simp
  from df_clean_is_filtered_app_load_data [of ?T parse_ymd] a n show ?thesis
    by auto
qed

section \<open>The Cleaner\<close>

text \<open>
  C2.  For every input frame, \<open>clean_data\<close> returns, every record it retains has a title
  and a year, and so has every record of the retained frame that passes the year-range
  filter, whatever the bounds.
\<close>

theorem clean_data_retains_title_and_year:
  "\<exists>out n. clean_data P df = Inr (out, n) \<and>
     (\<forall>r\<in>set out. title r \<noteq> None \<and> year r \<noteq> None) \<and>
     (\<forall>r\<in>set (df_filtered (lo, hi) out). title r \<noteq> None \<and> year r \<noteq> None)"
  by (auto simp: clean_data_rows df_filtered_filter)

theorem clean_data_retains_title_and_year_witness:
  "clean_data parse_ymd
     [\<lparr>title = Some ''T'', abstract = None, journal = None, publish_time = Some ''2020-03-01''\<rparr>,
      \<lparr>title = Some ''U'', abstract = None, journal = None, publish_time = Some ''not-a-date''\<rparr>,
      \<lparr>title = None, abstract = None, journal = None, publish_time = Some ''2019-12-31''\<rparr>]
   = Inr ([\<lparr>title = Some ''T'', abstract = None, journal = None,
            publish_time = Some (Timestamp 2020 3 1), year = Some 2020,
            abstract_word_count = 0\<rparr>], 2)
   \<and> df_filtered (2019, 2021)
       [\<lparr>title = Some ''T'', abstract = None, journal = None,
         publish_time = Some (Timestamp 2020 3 1), year = Some 2020,
         abstract_word_count = 0\<rparr>]
     = [\<lparr>title = Some ''T'', abstract = None, journal = None,
         publish_time = Some (Timestamp 2020 3 1), year = Some 2020,
         abstract_word_count = 0\<rparr>]"
proof -
  let ?T = "[\<lparr>title = Some ''T'', abstract = None, journal = None, publish_time = Some ''2020-03-01''\<rparr>,
      \<lparr>title = Some ''U'', abstract = None, journal = None, publish_time = Some ''not-a-date''\<rparr>,
      \<lparr>title = None, abstract = None, journal = None, publish_time = Some ''2019-12-31''\<rparr>]"
  let ?r = "\<lparr>title = Some ''T'', abstract = None, journal = None,
            publish_time = Some (Timestamp 2020 3 1), year = Some 2020,
            abstract_word_count = 0\<rparr>"
  have c: "clean_data parse_ymd ?T = Inr ([?r], 2)"
    by code_simp
  have f: "df_filtered (2019, 2021) [?r] = [?r]"
    by code_simp
  from clean_data_retains_title_and_year [of parse_ymd ?T 2019 2021] c f show ?thesis
    by simp
qed

text \<open>
  C3.  For every record of the cleaned frame (and of the frame of the interactive load),
  \<open>abstract_word_count\<close> is the whitespace-token count of the abstract, and 0 when the
  abstract is absent; the column holds a natural number for every row, never a missing
  cell.  The abstract \<open>a b c\<close> counts 3, an absent abstract 0.
\<close>

theorem abstract_word_count_is_token_count:
  "(\<exists>out n. clean_data P df = Inr (out, n) \<and>
      (\<forall>r\<in>set out. abstract_word_count r
         = (case abstract r of None \<Rightarrow> 0 | Some s \<Rightarrow> whitespace_token_count s)))
   \<and> (\<exists>app_df. app_load_data (Inr df) P = Inr app_df \<and>
      (\<forall>r\<in>set app_df. abstract_word_count r
         = (case abstract r of None \<Rightarrow> 0 | Some s \<Rightarrow> whitespace_token_count s)))
   \<and> length (split (fillna '''' (Some ''a b c''))) = 3
   \<and> length (split (fillna '''' None)) = 0"
proof -
  have w: "length (split (fillna [] c))
           = (case c of None \<Rightarrow> 0 | Some s \<Rightarrow> whitespace_token_count s)" for c
    by (cases c) (simp_all add: fillna_def length_split [symmetric] split_def)
  have 1: "\<exists>out n. clean_data P df = Inr (out, n) \<and>
      (\<forall>r\<in>set out. abstract_word_count r
         = (case abstract r of None \<Rightarrow> 0 | Some s \<Rightarrow> whitespace_token_count s))"
    by (auto simp: clean_data_rows w)
  have 2: "\<exists>app_df. app_load_data (Inr df) P = Inr app_df \<and>
      (\<forall>r\<in>set app_df. abstract_word_count r
         = (case abstract r of None \<Rightarrow> 0 | Some s \<Rightarrow> whitespace_token_count s))"
    by (auto simp: app_load_data_rows w)
  have 3: "length (split (fillna '''' (Some ''a b c''))) = 3"
    by code_simp
  have 4: "length (split (fillna '''' None)) = 0"
    by code_simp
  from 1 2 3 4 show ?thesis
    by blast
qed

theorem abstract_word_count_is_token_count_witness:
  "clean_data parse_ymd
     [\<lparr>title = Some ''T'', abstract = Some ''a b c'', journal = None,
       publish_time = Some ''2020-03-01''\<rparr>,
      \<lparr>title = Some ''U'', abstract = None, journal = None,
       publish_time = Some ''2020-03-02''\<rparr>]
   = Inr ([\<lparr>title = Some ''T'', abstract = Some ''a b c'', journal = None,
            publish_time = Some (Timestamp 2020 3 1), year = Some 2020,
            abstract_word_count = whitespace_token_count ''a b c''\<rparr>,
           \<lparr>title = Some ''U'', abstract = None, journal = None,
            publish_time = Some (Timestamp 2020 3 2), year = Some 2020,
            abstract_word_count = 0\<rparr>], 0)
   \<and> whitespace_token_count ''a b c'' = 3"
proof -
  let ?T = "[\<lparr>title = Some ''T'', abstract = Some ''a b c'', journal = None,
       publish_time = Some ''2020-03-01''\<rparr>,
      \<lparr>title = Some ''U'', abstract = None, journal = None,
       publish_time = Some ''2020-03-02''\<rparr>]"
  have c: "clean_data parse_ymd ?T
   = Inr ([\<lparr>title = Some ''T'', abstract = Some ''a b c'', journal = None,
            publish_time = Some (Timestamp 2020 3 1), year = Some 2020,
            abstract_word_count = 3\<rparr>,
           \<lparr>title = Some ''U'', abstract = None, journal = None,
            publish_time = Some (Timestamp 2020 3 2), year = Some 2020,
            abstract_word_count = 0\<rparr>], 0)"
    by code_simp
  from abstract_word_count_is_token_count [of parse_ymd ?T] c show ?thesis
    by auto
qed

text \<open>
  C4.  Under the policy \<^verbatim>\<open>errors='coerce'\<close>, parsing the \<open>publish_time\<close> column returns
  for every frame and every date grammar \<open>P\<close>: a cell that \<open>P\<close> rejects, like a missing
  cell, becomes an absent date.  In the frames built from it, \<open>year\<close> is the calendar year
  of the parsed date and is absent exactly when the parsed date is; the Cleaner returns and
  every record it retains has a year.  With the grammar \<open>parse_ymd\<close>, \<open>2020-03-01\<close> gives
  the year 2020, and \<open>not-a-date\<close> gives an absent date and the row is dropped.
\<close>

theorem publish_time_coerced_and_year_derived:
  "to_datetime Coerce P (map publish_time df)
     = Inr (map (\<lambda>r. case publish_time r of None \<Rightarrow> None | Some s \<Rightarrow> P s) df)
   \<and> (\<exists>app_df. app_load_data (Inr df) P = Inr app_df \<and>
        map publish_time app_df
          = map (\<lambda>r. case publish_time r of None \<Rightarrow> None | Some s \<Rightarrow> P s) df \<and>
        (\<forall>r\<in>set app_df. year r = map_option ts_year (publish_time r) \<and>
                         (year r = None \<longleftrightarrow> publish_time r = None)))
   \<and> (\<exists>out n. clean_data P df = Inr (out, n) \<and>
        (\<forall>r\<in>set out. year r = map_option ts_year (publish_time r) \<and> year r \<noteq> None))
   \<and> clean_data parse_ymd
        [\<lparr>title = Some ''T'', abstract = None, journal = None,
          publish_time = Some ''2020-03-01''\<rparr>]
      = Inr ([\<lparr>title = Some ''T'', abstract = None, journal = None,
               publish_time = Some (Timestamp 2020 3 1), year = Some 2020,
               abstract_word_count = 0\<rparr>], 0)
   \<and> to_datetime Coerce parse_ymd [Some ''not-a-date''] = Inr [None]
   \<and> clean_data parse_ymd
        [\<lparr>title = Some ''T'', abstract = None, journal = None,
          publish_time = Some ''not-a-date''\<rparr>]
      = Inr ([], 1)"
proof -
  have 1: "to_datetime Coerce P (map publish_time df)
     = Inr (map (\<lambda>r. case publish_time r of None \<Rightarrow> None | Some s \<Rightarrow> P s) df)"
    by (simp add: to_datetime_Coerce bind_case comp_def)
  have 2: "\<exists>app_df. app_load_data (Inr df) P = Inr app_df \<and>
        map publish_time app_df
          = map (\<lambda>r. case publish_time r of None \<Rightarrow> None | Some s \<Rightarrow> P s) df \<and>
        (\<forall>r\<in>set app_df. year r = map_option ts_year (publish_time r) \<and>
                         (year r = None \<longleftrightarrow> publish_time r = None))"
    by (auto simp: app_load_data_rows bind_case comp_def)
  have 3: "\<exists>out n. clean_data P df = Inr (out, n) \<and>
        (\<forall>r\<in>set out. year r = map_option ts_year (publish_time r) \<and> year r \<noteq> None)"
    by (auto simp: clean_data_rows)
  have 4: "clean_data parse_ymd
        [\<lparr>title = Some ''T'', abstract = None, journal = None,
          publish_time = Some ''2020-03-01''\<rparr>]
      = Inr ([\<lparr>title = Some ''T'', abstract = None, journal = None,
               publish_time = Some (Timestamp 2020 3 1), year = Some 2020,
               abstract_word_count = 0\<rparr>], 0)"
    by code_simp
  have 5: "to_datetime Coerce parse_ymd [Some ''not-a-date''] = Inr [None]"
    by code_simp
  have 6: "clean_data parse_ymd
        [\<lparr>title = Some ''T'', abstract = None, journal = None,
          publish_time = Some ''not-a-date''\<rparr>]
      = Inr ([], 1)"
    by code_simp
  from 1 2 3 4 5 6 show ?thesis
    by blast
qed

theorem publish_time_coerced_and_year_derived_witness:
  "app_load_data
     (Inr [\<lparr>title = Some ''T'', abstract = None, journal = None,
            publish_time = Some ''2020-03-01''\<rparr>,
           \<lparr>title = Some ''U'', abstract = None, journal = None,
            publish_time = Some ''not-a-date''\<rparr>]) parse_ymd
   = Inr [\<lparr>title = Some ''T'', abstract = None, journal = None,
           publish_time = Some (Timestamp 2020 3 1), year = Some 2020,
           abstract_word_count = 0\<rparr>,
          \<lparr>title = Some ''U'', abstract = None, journal = None,
           publish_time = None, year = None, abstract_word_count = 0\<rparr>]
   \<and> clean_data parse_ymd
     [\<lparr>title = Some ''T'', abstract = None, journal = None,
       publish_time = Some ''2020-03-01''\<rparr>,
      \<lparr>title = Some ''U'', abstract = None, journal = None,
       publish_time = Some ''not-a-date''\<rparr>]
   = Inr ([\<lparr>title = Some ''T'', abstract = None, journal = None,
            publish_time = Some (Timestamp 2020 3 1), year = Some 2020,
            abstract_word_count = 0\<rparr>], 1)"
proof -
  let ?T = "[\<lparr>title = Some ''T'', abstract = None, journal = None,
            publish_time = Some ''2020-03-01''\<rparr>,
           \<lparr>title = Some ''U'', abstract = None, journal = None,
            publish_time = Some ''not-a-date''\<rparr>]"
  have a: "app_load_data (Inr ?T) parse_ymd
   = Inr [\<lparr>title = Some ''T'', abstract = None, journal = None,
           publish_time = Some (Timestamp 2020 3 1), year = Some 2020,
           abstract_word_count = 0\<rparr>,
          \<lparr>title = Some ''U'', abstract = None, journal = None,
           publish_time = None, year = None, abstract_word_count = 0\<rparr>]"
    by code_simp
  have c: "clean_data parse_ymd ?T
   = Inr ([\<lparr>title = Some ''T'', abstract = None, journal = None,
            publish_time = Some (Timestamp 2020 3 1), year = Some 2020,
            abstract_word_count = 0\<rparr>], 1)"
    by code_simp
  from publish_time_coerced_and_year_derived [of parse_ymd ?T] a c show ?thesis
    by simp
qed

text \<open>
  C5.  For every input frame, the number \<open>clean_data\<close> reports is the number of rows
  before the \<^verbatim>\<open>dropna\<close> minus the number of rows after it, and equals the number of
  input records whose title is absent or whose derived year is absent.
\<close>

theorem clean_data_dropped_count:
  "\<exists>out n. clean_data P df = Inr (out, n) \<and>
     n = int (length df) - int (length out) \<and>
     n = int (length (filter (\<lambda>r. title r = None \<or> year (dated P r) = None) df))"
proof -
  let ?keep = "\<lambda>r. title r \<noteq> None \<and> year r \<noteq> None"
  let ?out = "map counted (filter ?keep (map (dated P) df))"
  have "length df = length (filter (\<lambda>r. ?keep (dated P r)) df)
                    + length (filter (\<lambda>r. \<not> ?keep (dated P r)) df)"
    by (simp only: sum_length_filter_compl)
  moreover have "length ?out = length (filter (\<lambda>r. ?keep (dated P r)) df)"
    by (simp add: filter_map comp_def)
  moreover have "(\<lambda>r. \<not> ?keep (dated P r)) = (\<lambda>r. title r = None \<or> year (dated P r) = None)"
    by auto
  ultimately have "int (length df) - int (length ?out)
      = int (length (filter (\<lambda>r. title r = None \<or> year (dated P r) = None) df))"
    by simp
  moreover have "clean_data P df = Inr (?out, int (length df) - int (length ?out))"
    by (simp add: clean_data_rows)
  ultimately show ?thesis
    by blast
qed

theorem clean_data_dropped_count_witness:
  "clean_data parse_ymd
     [\<lparr>title = Some ''T'', abstract = None, journal = None, publish_time = Some ''2020-03-01''\<rparr>,
      \<lparr>title = Some ''U'', abstract = None, journal = None, publish_time = Some ''not-a-date''\<rparr>,
      \<lparr>title = None, abstract = None, journal = None, publish_time = Some ''2019-12-31''\<rparr>]
   = Inr ([\<lparr>title = Some ''T'', abstract = None, journal = None,
            publish_time = Some (Timestamp 2020 3 1), year = Some 2020,
            abstract_word_count = 0\<rparr>], 3 - 1)"
proof -
  let ?T = "[\<lparr>title = Some ''T'', abstract = None, journal = None, publish_time = Some ''2020-03-01''\<rparr>,
      \<lparr>title = Some ''U'', abstract = None, journal = None, publish_time = Some ''not-a-date''\<rparr>,
      \<lparr>title = None, abstract = None, journal = None, publish_time = Some ''2019-12-31''\<rparr>]"
  have c: "fst (projr (clean_data parse_ymd ?T)) = [\<lparr>title = Some ''T'', abstract = None, journal = None,
            publish_time = Some (Timestamp 2020 3 1), year = Some 2020,
            abstract_word_count = 0\<rparr>]"
    by code_simp
  from clean_data_dropped_count [of parse_ymd ?T] c show ?thesis
    by auto
qed

section \<open>Year-range filter\<close>

text \<open>
  C6.  Filtering by a closed interval \<open>[lo, hi]\<close> and filtering the result again by the
  same interval gives the same rows as filtering once, for every frame and all integer
  bounds.
\<close>

theorem df_filtered_idempotent:
  "df_filtered (lo, hi) (df_filtered (lo, hi) df) = df_filtered (lo, hi) df"
  by (simp add: df_filtered_filter)

section \<open>Frequency views\<close>

text \<open>
  C7.  For every frame, the top-journals view has at most 10 entries, in descending order
  of count; its keys are pairwise different journals of the frame, each with the number
  of records of that journal; its length is the smaller of 10 and the number of distinct
  journals; and when fewer than 10 distinct journals exist, its keys are exactly the
  distinct journals of the frame.
\<close>

theorem top_journals_at_most_ten_descending:
  "length (top_journals df) \<le> 10
   \<and> sorted_wrt (\<lambda>a b. snd b \<le> snd a) (top_journals df)
   \<and> distinct (map fst (top_journals df))
   \<and> (\<forall>(k, n)\<in>set (top_journals df).
        \<exists>j. k = Some j \<and> 0 < n \<and> n = length (filter (\<lambda>r. journal r = Some j) df))
   \<and> length (top_journals df) = min 10 (card {j. \<exists>r\<in>set df. journal r = Some j})
   \<and> (card {j. \<exists>r\<in>set df. journal r = Some j} < 10 \<longrightarrow>
        fst ` set (top_journals df) = Some ` {j. \<exists>r\<in>set df. journal r = Some j})"
proof -
  let ?vc = "value_counts True (map journal df)"
  let ?J = "{j. \<exists>r\<in>set df. journal r = Some j}"
  have t: "top_journals df = take 10 ?vc"
    by (simp add: top_journals_def head_def)
  have 1: "length (top_journals df) \<le> 10"
    by (simp add: t)
  have 2: "sorted_wrt (\<lambda>a b. snd b \<le> snd a) (top_journals df)"
    unfolding t by (rule sorted_wrt_take) (rule descending_value_counts)
  have 3: "distinct (map fst (top_journals df))"
    unfolding t take_map [symmetric] by (rule distinct_take) (rule distinct_keys_value_counts)
  have 4: "\<forall>(k, n)\<in>set (top_journals df).
        \<exists>j. k = Some j \<and> 0 < n \<and> n = length (filter (\<lambda>r. journal r = Some j) df)"
  proof (clarify)
    fix k n assume "(k, n) \<in> set (top_journals df)"
    then have "(k, n) \<in> set ?vc"
      unfolding t by (rule in_set_takeD)
    then obtain j where j: "k = Some j" "n = count_list (map journal df) (Some j)"
      "Some j \<in> set (map journal df)"
      by (auto simp: set_value_counts_True)
    from j(2,3) count_list_0_iff [of "map journal df" "Some j"] have "0 < n"
      by auto
    with j show "\<exists>j. k = Some j \<and> 0 < n \<and> n = length (filter (\<lambda>r. journal r = Some j) df)"
      by (simp add: count_list_map)
  qed
  have l: "length ?vc = card ?J"
    by (simp only: length_value_counts_True journals_present)
  have 5: "length (top_journals df) = min 10 (card ?J)"
    by (simp add: t l min.commute)
  have 6: "fst ` set (top_journals df) = Some ` ?J" if "card ?J < 10"
  proof -
    from that l have "take 10 ?vc = ?vc"
      by simp
    then have "set (top_journals df) = set ?vc"
      by (simp add: t)
    then show ?thesis
      by (simp only: keys_value_counts_True journals_present)
  qed
  from 1 2 3 4 5 6 show ?thesis
    by blast
qed

theorem top_journals_at_most_ten_descending_witness:
  "top_journals
     [\<lparr>title = Some ''A'', abstract = None, journal = Some ''K'', publish_time = None,
       year = Some 2020, abstract_word_count = 0\<rparr>,
      \<lparr>title = Some ''B'', abstract = None, journal = Some ''J'', publish_time = None,
       year = Some 2020, abstract_word_count = 0\<rparr>,
      \<lparr>title = Some ''C'', abstract = None, journal = None, publish_time = None,
       year = Some 2021, abstract_word_count = 0\<rparr>,
      \<lparr>title = Some ''D'', abstract = None, journal = Some ''J'', publish_time = None,
       year = Some 2019, abstract_word_count = 0\<rparr> :: timestamp paper]
   = [(Some ''J'', 2), (Some ''K'', 1)]"
proof -
  let ?F = "[\<lparr>title = Some ''A'', abstract = None, journal = Some ''K'', publish_time = None,
       year = Some 2020, abstract_word_count = 0\<rparr>,
      \<lparr>title = Some ''B'', abstract = None, journal = Some ''J'', publish_time = None,
       year = Some 2020, abstract_word_count = 0\<rparr>,
      \<lparr>title = Some ''C'', abstract = None, journal = None, publish_time = None,
       year = Some 2021, abstract_word_count = 0\<rparr>,
      \<lparr>title = Some ''D'', abstract = None, journal = Some ''J'', publish_time = None,
       year = Some 2019, abstract_word_count = 0\<rparr> :: timestamp paper]"
  have e: "top_journals ?F = [(Some ''J'', 2), (Some ''K'', 1)]"
    by code_simp
  from top_journals_at_most_ten_descending [of ?F] e show ?thesis
    by simp
qed

text \<open>
  C8.  For every frame, the year-frequency view lists the years present in the frame in
  strictly ascending order, each exactly once, each with the number of records of that
  year.
\<close>

theorem counts_year_ascending_complete:
  "\<exists>ys. counts_year df = map (\<lambda>y. (Some y, length (filter (\<lambda>r. year r = Some y) df))) ys
        \<and> sorted_wrt (<) ys
        \<and> set ys = {y. \<exists>r\<in>set df. year r = Some y}"
proof -
  let ?col = "map year df"
  let ?vc = "value_counts True ?col"
  let ?L = "[(y, n). (Some y, n) \<leftarrow> ?vc]"
  let ?S = "sort_key fst ?L"
  let ?cnt = "\<lambda>y. length (filter (\<lambda>r. year r = Some y) df)"
  have noNone: "None \<notin> fst ` set ?vc"
    by (simp only: keys_value_counts_True) blast
  have c: "counts_year df = map (\<lambda>(y, n). (Some y, n)) ?S"
    by (simp only: counts_year_def sort_index_def None_entries_empty [OF noNone] append_Nil2)
  have "set ?S = {(y, n). (Some y, n) \<in> set ?vc}"
    by (simp only: set_sort set_Some_entries)
  also have "\<dots> = {(y, ?cnt y) | y. Some y \<in> set ?col}"
    unfolding set_value_counts_True count_list_map by auto
  finally have setS: "set ?S = {(y, ?cnt y) | y. Some y \<in> set ?col}" .
  have dL: "distinct (map fst ?L)"
    by (rule distinct_keys_Some_entries) (rule distinct_keys_value_counts)
  have "distinct (map fst ?S) = distinct (map fst ?L)"
    by (simp add: distinct_map)
  with dL have dS: "distinct (map fst ?S)"
    by simp
  have sS: "sorted (map fst ?S)"
    by (rule sorted_sort_key)
  have "map (\<lambda>e. (fst e, ?cnt (fst e))) ?S = ?S"
  proof (rule map_idI)
    fix e assume "e \<in> set ?S"
    then have "e \<in> {(y, ?cnt y) | y. Some y \<in> set ?col}"
      by (simp only: setS)
    then show "(fst e, ?cnt (fst e)) = e"
      by auto
  qed
  then have S: "?S = map (\<lambda>y. (y, ?cnt y)) (map fst ?S)"
    by (simp add: comp_def)
  have 1: "counts_year df = map (\<lambda>y. (Some y, ?cnt y)) (map fst ?S)"
    by (subst c, subst S) (simp add: comp_def)
  have 2: "sorted_wrt (<) (map fst ?S)"
    using sS dS by (simp only: strict_sorted_iff)
  have "set (map fst ?S) = {v. Some v \<in> set ?col}"
    unfolding set_map setS by force
  then have 3: "set (map fst ?S) = {y. \<exists>r\<in>set df. year r = Some y}"
    by (simp only: years_present)
  from 1 2 3 show ?thesis
    by blast
qed

theorem counts_year_ascending_complete_witness:
  "counts_year
     [\<lparr>title = Some ''A'', abstract = None, journal = Some ''K'', publish_time = None,
       year = Some 2020, abstract_word_count = 0\<rparr>,
      \<lparr>title = Some ''B'', abstract = None, journal = Some ''J'', publish_time = None,
       year = None, abstract_word_count = 0\<rparr>,
      \<lparr>title = Some ''C'', abstract = None, journal = None, publish_time = None,
       year = Some 2019, abstract_word_count = 0\<rparr>,
      \<lparr>title = Some ''D'', abstract = None, journal = Some ''J'', publish_time = None,
       year = Some 2020, abstract_word_count = 0\<rparr> :: timestamp paper]
   = [(Some 2019, 1), (Some 2020, 2)]"
proof -
  let ?F = "[\<lparr>title = Some ''A'', abstract = None, journal = Some ''K'', publish_time = None,
       year = Some 2020, abstract_word_count = 0\<rparr>,
      \<lparr>title = Some ''B'', abstract = None, journal = Some ''J'', publish_time = None,
       year = None, abstract_word_count = 0\<rparr>,
      \<lparr>title = Some ''C'', abstract = None, journal = None, publish_time = None,
       year = Some 2019, abstract_word_count = 0\<rparr>,
      \<lparr>title = Some ''D'', abstract = None, journal = Some ''J'', publish_time = None,
       year = Some 2020, abstract_word_count = 0\<rparr> :: timestamp paper]"
  have e: "counts_year ?F = [(Some 2019, 1), (Some 2020, 2)]"
    by code_simp
  from counts_year_ascending_complete [of ?F] e show ?thesis
    by simp
qed

section \<open>Absent cells\<close>

text \<open>
  C9.  The interactive load keeps every input record, also those with an absent year.
  For every interval \<open>[lo, hi]\<close>, a record of the loaded frame whose year is absent is
  not in the filtered subset, and no row of the preview table has an absent year.  For the
  full range \<open>[min_year, max_year]\<close> that the slider starts with, the filtered subset is
  exactly the records whose year is present.
\<close>

theorem df_filtered_excludes_absent_year:
  "\<exists>app_df. app_load_data (Inr df) P = Inr app_df \<and> length app_df = length df \<and>
     (\<forall>r\<in>set app_df. year r = None \<longrightarrow> r \<notin> set (df_filtered (lo, hi) app_df)) \<and>
     (\<forall>p\<in>set (preview (df_filtered (lo, hi) app_df)). snd (snd p) \<noteq> None) \<and>
     (year_bounds app_df = Inr (lo, hi) \<longrightarrow>
        df_filtered (lo, hi) app_df = filter (\<lambda>r. year r \<noteq> None) app_df)"
proof -
  let ?app = "map counted (map (dated P) df)"
  have a: "app_load_data (Inr df) P = Inr ?app"
    by (rule app_load_data_rows)
  have l: "length ?app = length df"
    by simp
  have 1: "\<forall>r\<in>set ?app. year r = None \<longrightarrow> r \<notin> set (df_filtered (lo, hi) ?app)"
    by (simp add: df_filtered_filter ge_cell_def)
  have 2: "\<forall>p\<in>set (preview (df_filtered (lo, hi) ?app)). snd (snd p) \<noteq> None"
  proof
    fix p assume "p \<in> set (preview (df_filtered (lo, hi) ?app))"
    then have "p \<in> set (map (\<lambda>r. (title r, journal r, year r)) (df_filtered (lo, hi) ?app))"
      unfolding preview_def head_def by (rule in_set_takeD)
    then show "snd (snd p) \<noteq> None"
      by (auto simp: df_filtered_filter ge_cell_def split: option.splits)
  qed
  have 3: "df_filtered (lo, hi) ?app = filter (\<lambda>r. year r \<noteq> None) ?app"
    if b: "year_bounds ?app = Inr (lo, hi)"
    unfolding df_filtered_filter
  proof (rule filter_cong [OF refl])
    fix r assume r: "r \<in> set ?app"
    show "(ge_cell (year r) lo \<and> le_cell (year r) hi) = (year r \<noteq> None)"
    proof (cases "year r")
      case None
      then show ?thesis by (simp add: ge_cell_def)
    next
      case (Some y)
      with year_bounds_cover [OF b r Some] show ?thesis
        by (simp add: ge_cell_def le_cell_def)
    qed
  qed
  from a l 1 2 3 show ?thesis
    by blast
qed

theorem df_filtered_excludes_absent_year_witness:
  "app_load_data
     (Inr [\<lparr>title = Some ''T'', abstract = None, journal = None,
            publish_time = Some ''2020-03-01''\<rparr>,
           \<lparr>title = Some ''U'', abstract = None, journal = None,
            publish_time = Some ''not-a-date''\<rparr>,
           \<lparr>title = Some ''V'', abstract = None, journal = None,
            publish_time = Some ''2019-07-04''\<rparr>]) parse_ymd
   = Inr [\<lparr>title = Some ''T'', abstract = None, journal = None,
           publish_time = Some (Timestamp 2020 3 1), year = Some 2020,
           abstract_word_count = 0\<rparr>,
          \<lparr>title = Some ''U'', abstract = None, journal = None,
           publish_time = None, year = None, abstract_word_count = 0\<rparr>,
          \<lparr>title = Some ''V'', abstract = None, journal = None,
           publish_time = Some (Timestamp 2019 7 4), year = Some 2019,
           abstract_word_count = 0\<rparr>]
   \<and> year_bounds
         [\<lparr>title = Some ''T'', abstract = None, journal = None,
           publish_time = Some (Timestamp 2020 3 1), year = Some 2020,
           abstract_word_count = 0\<rparr>,
          \<lparr>title = Some ''U'', abstract = None, journal = None,
           publish_time = None, year = None, abstract_word_count = 0\<rparr>,
          \<lparr>title = Some ''V'', abstract = None, journal = None,
           publish_time = Some (Timestamp 2019 7 4), year = Some 2019,
           abstract_word_count = 0\<rparr>] = Inr (2019, 2020)
   \<and> df_filtered (2019, 2020)
         [\<lparr>title = Some ''T'', abstract = None, journal = None,
           publish_time = Some (Timestamp 2020 3 1), year = Some 2020,
           abstract_word_count = 0\<rparr>,
          \<lparr>title = Some ''U'', abstract = None, journal = None,
           publish_time = None, year = None, abstract_word_count = 0\<rparr>,
          \<lparr>title = Some ''V'', abstract = None, journal = None,
           publish_time = Some (Timestamp 2019 7 4), year = Some 2019,
           abstract_word_count = 0\<rparr>]
     = [\<lparr>title = Some ''T'', abstract = None, journal = None,
           publish_time = Some (Timestamp 2020 3 1), year = Some 2020,
           abstract_word_count = 0\<rparr>,
          \<lparr>title = Some ''V'', abstract = None, journal = None,
           publish_time = Some (Timestamp 2019 7 4), year = Some 2019,
           abstract_word_count = 0\<rparr>]"
proof -
  let ?T = "[\<lparr>title = Some ''T'', abstract = None, journal = None,
            publish_time = Some ''2020-03-01''\<rparr>,
           \<lparr>title = Some ''U'', abstract = None, journal = None,
            publish_time = Some ''not-a-date''\<rparr>,
           \<lparr>title = Some ''V'', abstract = None, journal = None,
            publish_time = Some ''2019-07-04''\<rparr>]"
  let ?A = "[\<lparr>title = Some ''T'', abstract = None, journal = None,
           publish_time = Some (Timestamp 2020 3 1), year = Some 2020,
           abstract_word_count = 0\<rparr>,
          \<lparr>title = Some ''U'', abstract = None, journal = None,
           publish_time = None, year = None, abstract_word_count = 0\<rparr>,
          \<lparr>title = Some ''V'', abstract = None, journal = None,
           publish_time = Some (Timestamp 2019 7 4), year = Some 2019,
           abstract_word_count = 0\<rparr>]"
  have a: "app_load_data (Inr ?T) parse_ymd = Inr ?A"
    by code_simp
  have b: "year_bounds ?A = Inr (2019, 2020)"
    by code_simp
  have f: "filter (\<lambda>r. year r \<noteq> None) ?A
     = [\<lparr>title = Some ''T'', abstract = None, journal = None,
           publish_time = Some (Timestamp 2020 3 1), year = Some 2020,
           abstract_word_count = 0\<rparr>,
          \<lparr>title = Some ''V'', abstract = None, journal = None,
           publish_time = Some (Timestamp 2019 7 4), year = Some 2019,
           abstract_word_count = 0\<rparr>]"
    by simp
  from df_filtered_excludes_absent_year [of ?T parse_ymd 2019 2020] a b f show ?thesis
    by auto
qed

text \<open>
  C10.  For every frame, no entry of the journal counts, and so none of the top-journals
  view, has an absent journal as its key; the view is the same as the view of the frame
  without the records that lack a journal, however many they are; and each entry's count
  is the number of records of that journal.
\<close>

theorem journal_counts_exclude_absent:
  "(\<forall>n. (None, n) \<notin> set (value_counts True (map journal df)))
   \<and> (\<forall>n. (None, n) \<notin> set (top_journals df))
   \<and> top_journals df = top_journals (filter (\<lambda>r. journal r \<noteq> None) df)
   \<and> (\<forall>(k, n)\<in>set (top_journals df). n = length (filter (\<lambda>r. journal r = k) df))"
proof -
  let ?vc = "value_counts True (map journal df)"
  have t: "top_journals d = take 10 (value_counts True (map journal d))"
    for d :: "('a, 'b) paper_scheme list"
    by (simp add: top_journals_def head_def)
  have 1: "\<forall>n. (None, n) \<notin> set ?vc"
    by (simp add: set_value_counts_True)
  have 2: "\<forall>n. (None, n) \<notin> set (top_journals df)"
    unfolding t using 1 by (blast dest: in_set_takeD)
  have "map journal (filter (\<lambda>r. journal r \<noteq> None) df) = filter (\<lambda>v. v \<noteq> None) (map journal df)"
    by (simp only: filter_map comp_def)
  then have 3: "top_journals df = top_journals (filter (\<lambda>r. journal r \<noteq> None) df)"
    by (simp only: t value_counts_True_filter)
  have 4: "\<forall>(k, n)\<in>set (top_journals df). n = length (filter (\<lambda>r. journal r = k) df)"
  proof (clarify)
    fix k n assume "(k, n) \<in> set (top_journals df)"
    then have "(k, n) \<in> set ?vc"
      unfolding t by (rule in_set_takeD)
    then show "n = length (filter (\<lambda>r. journal r = k) df)"
      by (auto simp: set_value_counts_True count_list_map)
  qed
  from 1 2 3 4 show ?thesis
    by blast
qed

theorem journal_counts_exclude_absent_witness:
  "top_journals
     [\<lparr>title = Some ''A'', abstract = None, journal = None, publish_time = None,
       year = Some 2020, abstract_word_count = 0\<rparr>,
      \<lparr>title = Some ''B'', abstract = None, journal = Some ''J'', publish_time = None,
       year = Some 2020, abstract_word_count = 0\<rparr>,
      \<lparr>title = Some ''C'', abstract = None, journal = None, publish_time = None,
       year = Some 2021, abstract_word_count = 0\<rparr> :: timestamp paper]
   = [(Some ''J'', 1)]
   \<and> top_journals
     (filter (\<lambda>r. journal r \<noteq> None)
     [\<lparr>title = Some ''A'', abstract = None, journal = None, publish_time = None,
       year = Some 2020, abstract_word_count = 0\<rparr>,
      \<lparr>title = Some ''B'', abstract = None, journal = Some ''J'', publish_time = None,
       year = Some 2020, abstract_word_count = 0\<rparr>,
      \<lparr>title = Some ''C'', abstract = None, journal = None, publish_time = None,
       year = Some 2021, abstract_word_count = 0\<rparr> :: timestamp paper])
   = [(Some ''J'', 1)]"
proof -
  let ?F = "[\<lparr>title = Some ''A'', abstract = None, journal = None, publish_time = None,
       year = Some 2020, abstract_word_count = 0\<rparr>,
      \<lparr>title = Some ''B'', abstract = None, journal = Some ''J'', publish_time = None,
       year = Some 2020, abstract_word_count = 0\<rparr>,
      \<lparr>title = Some ''C'', abstract = None, journal = None, publish_time = None,
       year = Some 2021, abstract_word_count = 0\<rparr> :: timestamp paper]"
  have e: "top_journals ?F = [(Some ''J'', 1)]"
    by code_simp
  from journal_counts_exclude_absent [of ?F] e show ?thesis
    by simp
qed

end
